theory Spec2Isabelle
  imports Complex_Main
begin

section \<open>Numbers of the source language\<close>

text \<open>
  The component computes with JavaScript numbers, the binary64 values of IEEE 754. A finite
  number is modelled by the real it stands for; the two infinities and NaN are the values
  that division and the other operations produce instead of raising.
\<close>

datatype jsnum = Num real | PInf | NInf | NaN

text \<open>
  The result of an operation on finite numbers is the exact result rounded to the nearest
  binary64 value, ties to the even significand: \<open>double r\<close>. The unit in the last place of
  \<open>r\<close> is \<open>2\<close> to the power \<open>ulpExponent r\<close> (52 below the exponent of \<open>r\<close>, and never below
  -1074, where the subnormal numbers lie); \<open>r\<close> is rounded to a multiple of it. A result
  that rounds to zero underflows to zero, and one that rounds to \<open>2\<close> to the power 1024 or
  beyond overflows to an infinity.

  There is one zero, read as the positive zero: every divisor of the source is a result of
  \<^verbatim>\<open>Math.abs\<close>, of \<^verbatim>\<open>Math.sqrt\<close> of a sum of squares, or the scale of the zoom
  transform, none of which is the negative zero.
\<close>

definition roundEven :: "real \<Rightarrow> int" where
  "roundEven r =
     (let f = \<lfloor>r\<rfloor>; d = r - of_int f
      in if d < 1 / 2 then f else if 1 / 2 < d then f + 1 else if even f then f else f + 1)"

definition ulpExponent :: "real \<Rightarrow> int" where
  "ulpExponent r = max \<lfloor>log 2 \<bar>r\<bar>\<rfloor> (- 1022) - 52"

definition double :: "real \<Rightarrow> jsnum" where
  "double r =
     (if r = 0 then Num 0
      else
        let u = 2 powr of_int (ulpExponent r);
            v = of_int (roundEven (r / u)) * u
        in if 2 ^ 1024 \<le> \<bar>v\<bar> then (if 0 < r then PInf else NInf) else Num v)"

text \<open>
  Negation and \<^verbatim>\<open>Math.abs\<close> are exact. Sum, product, quotient and \<^verbatim>\<open>Math.sqrt\<close> are
  correctly rounded; a difference is the sum with the negated number. \<^verbatim>\<open>Math.pow(v, 2)\<close>
  and \<^verbatim>\<open>Math.atan\<close> are taken as correctly rounded too (an engine may differ from
  that in the last place; the properties of the component proved below evaluate the two
  at zero and at NaN only), and \<^verbatim>\<open>Math.PI\<close> is the binary64 value nearest to \<open>\<pi>\<close>.
\<close>

fun js_neg :: "jsnum \<Rightarrow> jsnum" where
  "js_neg (Num a) = Num (- a)"
| "js_neg PInf = NInf"
| "js_neg NInf = PInf"
| "js_neg NaN = NaN"

fun js_add :: "jsnum \<Rightarrow> jsnum \<Rightarrow> jsnum" where
  "js_add NaN _ = NaN"
| "js_add _ NaN = NaN"
| "js_add (Num a) (Num b) = double (a + b)"
| "js_add PInf NInf = NaN"
| "js_add NInf PInf = NaN"
| "js_add PInf _ = PInf"
| "js_add NInf _ = NInf"
| "js_add (Num a) PInf = PInf"
| "js_add (Num a) NInf = NInf"

definition js_sub :: "jsnum \<Rightarrow> jsnum \<Rightarrow> jsnum" where
  "js_sub a b = js_add a (js_neg b)"

text \<open>The sign of a number that is not NaN: \<open>1\<close>, \<open>0\<close> or \<open>-1\<close>.\<close>

fun js_sign :: "jsnum \<Rightarrow> real" where
  "js_sign (Num a) = sgn a"
| "js_sign PInf = 1"
| "js_sign NInf = - 1"
| "js_sign NaN = 0"

definition signed_inf :: "real \<Rightarrow> jsnum" where
  "signed_inf s = (if s = 0 then NaN else if 0 < s then PInf else NInf)"

fun js_mul :: "jsnum \<Rightarrow> jsnum \<Rightarrow> jsnum" where
  "js_mul NaN _ = NaN"
| "js_mul _ NaN = NaN"
| "js_mul (Num a) (Num b) = double (a * b)"
| "js_mul a b = signed_inf (js_sign a * js_sign b)"

fun js_div :: "jsnum \<Rightarrow> jsnum \<Rightarrow> jsnum" where
  "js_div NaN _ = NaN"
| "js_div _ NaN = NaN"
| "js_div (Num a) (Num b) = (if b = 0 then signed_inf (sgn a) else double (a / b))"
| "js_div (Num a) _ = Num 0"
| "js_div a (Num b) = (if b < 0 then js_neg a else a)"
| "js_div _ _ = NaN"

fun js_abs :: "jsnum \<Rightarrow> jsnum" where
  "js_abs (Num a) = Num \<bar>a\<bar>"
| "js_abs PInf = PInf"
| "js_abs NInf = PInf"
| "js_abs NaN = NaN"

fun js_sqrt :: "jsnum \<Rightarrow> jsnum" where
  "js_sqrt (Num a) = (if a < 0 then NaN else double (sqrt a))"
| "js_sqrt PInf = PInf"
| "js_sqrt NInf = NaN"
| "js_sqrt NaN = NaN"

text \<open>\<^verbatim>\<open>Math.pow(v, 2)\<close>.\<close>

fun js_pow2 :: "jsnum \<Rightarrow> jsnum" where
  "js_pow2 (Num a) = double (a\<^sup>2)"
| "js_pow2 PInf = PInf"
| "js_pow2 NInf = PInf"
| "js_pow2 NaN = NaN"

fun js_atan :: "jsnum \<Rightarrow> jsnum" where
  "js_atan (Num a) = double (arctan a)"
| "js_atan PInf = double (pi / 2)"
| "js_atan NInf = double (- (pi / 2))"
| "js_atan NaN = NaN"

definition MathPI :: jsnum where
  "MathPI = double pi"

text \<open>The comparison \<^verbatim>\<open><\<close>: false as soon as one side is NaN.\<close>

fun js_lt :: "jsnum \<Rightarrow> jsnum \<Rightarrow> bool" where
  "js_lt NaN _ = False"
| "js_lt _ NaN = False"
| "js_lt (Num a) (Num b) = (a < b)"
| "js_lt PInf _ = False"
| "js_lt _ NInf = False"
| "js_lt _ _ = True"

definition js_gt :: "jsnum \<Rightarrow> jsnum \<Rightarrow> bool" where
  "js_gt a b = js_lt b a"

text \<open>
  Truthiness of an optional number, as \<^verbatim>\<open>!node.x\<close> tests it: \<^verbatim>\<open>undefined\<close>, zero
  and NaN are falsy.
\<close>

fun truthy :: "jsnum option \<Rightarrow> bool" where
  "truthy None = False"
| "truthy (Some (Num a)) = (a \<noteq> 0)"
| "truthy (Some NaN) = False"
| "truthy (Some _) = True"

section \<open>Data model\<close>

text \<open>
  \<^verbatim>\<open>type Node = SimulationNodeDatum & { id: string }\<close>: the optional fields of the
  layout engine's node datum and the identifier (the field \<^verbatim>\<open>id\<close>, called \<open>nodeId\<close> here).
  An absent field is \<open>None\<close>.
\<close>

record node =
  nodeId :: string
  index :: "nat option"
  x :: "jsnum option"
  y :: "jsnum option"
  vx :: "jsnum option"
  vy :: "jsnum option"
  fx :: "jsnum option"
  fy :: "jsnum option"

text \<open>
  \<^verbatim>\<open>type Position = { x: number; y: number }\<close>, with the fields called \<open>px\<close> and \<open>py\<close>
  to keep them apart from the optional fields of a node.
\<close>

record Position =
  px :: jsnum
  py :: jsnum

datatype Direction = N | S | E | W

section \<open>Directional navigator\<close>

text \<open>\<^verbatim>\<open>getDistance(a, b)\<close>.\<close>

definition getDistance :: "Position \<Rightarrow> Position \<Rightarrow> jsnum" where
  "getDistance a b =
     js_sqrt (js_add (js_pow2 (js_sub (px b) (px a))) (js_pow2 (js_sub (py b) (py a))))"

text \<open>\<^verbatim>\<open>getAngle(a, b, direction)\<close>: the two sides, then the arc tangent of their quotient.\<close>

definition oppositeSide :: "Position \<Rightarrow> Position \<Rightarrow> Direction \<Rightarrow> jsnum" where
  "oppositeSide a b direction =
     (case direction of
        N \<Rightarrow> js_abs (js_sub (px b) (px a))
      | S \<Rightarrow> js_abs (js_sub (px b) (px a))
      | E \<Rightarrow> js_abs (js_sub (py b) (py a))
      | W \<Rightarrow> js_abs (js_sub (py b) (py a)))"

definition adjacentSide :: "Position \<Rightarrow> Position \<Rightarrow> Direction \<Rightarrow> jsnum" where
  "adjacentSide a b direction =
     (case direction of
        N \<Rightarrow> js_abs (js_sub (py b) (py a))
      | S \<Rightarrow> js_abs (js_sub (py b) (py a))
      | E \<Rightarrow> js_abs (js_sub (px b) (px a))
      | W \<Rightarrow> js_abs (js_sub (px b) (px a)))"

definition getAngle :: "Position \<Rightarrow> Position \<Rightarrow> Direction \<Rightarrow> jsnum" where
  "getAngle a b direction = js_atan (js_div (oppositeSide a b direction) (adjacentSide a b direction))"

text \<open>The score of the loop body: \<^verbatim>\<open>(1 / distance) * (Math.PI / 2 - angle)\<close>.\<close>

definition score :: "Position \<Rightarrow> Position \<Rightarrow> Direction \<Rightarrow> jsnum" where
  "score a b direction =
     js_mul (js_div (Num 1) (getDistance a b))
            (js_sub (js_div MathPI (Num 2)) (getAngle a b direction))"

text \<open>The \<^verbatim>\<open>switch\<close> of the loop body: is the node on the wrong side of the selected one?\<close>

definition wrongSide :: "Direction \<Rightarrow> Position \<Rightarrow> Position \<Rightarrow> bool" where
  "wrongSide direction sel nd =
     (case direction of
        N \<Rightarrow> js_gt (py nd) (py sel)
      | S \<Rightarrow> js_lt (py nd) (py sel)
      | E \<Rightarrow> js_lt (px nd) (px sel)
      | W \<Rightarrow> js_gt (px nd) (px sel))"

text \<open>
  An array holds references to objects, and \<^verbatim>\<open>node === selectedNode\<close> compares
  references. An object is therefore a pair of its address and its fields.
\<close>

type_synonym ref = nat

type_synonym node_obj = "ref \<times> node"

text \<open>
  One iteration of the loop of \<^verbatim>\<open>getNextNode\<close>: \<open>result\<close> is the best node so far with
  its score, \<open>sref\<close> and \<open>sp\<close> are the address and the position of the selected node. Each
  \<^verbatim>\<open>continue\<close> leaves \<open>result\<close> as it is.
\<close>

definition loopBody ::
  "ref \<Rightarrow> Position \<Rightarrow> Direction \<Rightarrow> (node_obj \<times> jsnum) option \<Rightarrow> node_obj
     \<Rightarrow> (node_obj \<times> jsnum) option" where
  "loopBody sref sp direction result nd =
     (if fst nd = sref then result
      else case (x (snd nd), y (snd nd)) of
        (Some nx, Some ny) \<Rightarrow>
          if wrongSide direction sp \<lparr>px = nx, py = ny\<rparr> then result
          else
            let sc = score sp \<lparr>px = nx, py = ny\<rparr> direction in
            (case result of
               None \<Rightarrow> Some (nd, sc)
             | Some (rn, rs) \<Rightarrow> if js_lt rs sc then Some (nd, sc) else result)
      | _ \<Rightarrow> result)"

definition getNextNode :: "node_obj list \<Rightarrow> node_obj option \<Rightarrow> Direction \<Rightarrow> node_obj option" where
  "getNextNode nodes selectedNode direction =
     (case selectedNode of
        None \<Rightarrow> None
      | Some sel \<Rightarrow>
          (case (x (snd sel), y (snd sel)) of
             (Some sx, Some sy) \<Rightarrow>
               map_option fst
                 (foldl (loopBody (fst sel) \<lparr>px = sx, py = sy\<rparr> direction) None nodes)
           | _ \<Rightarrow> None))"

section \<open>Viewport transform\<close>

text \<open>
  The zoom transform of the zoom library: a scale \<open>k\<close> and a translation, called \<open>tx\<close> and
  \<open>ty\<close> here. Its two methods are the library's: \<^verbatim>\<open>apply\<close> maps a model point to
  \<^verbatim>\<open>[x * k + tx, y * k + ty]\<close>, \<^verbatim>\<open>invert\<close> maps a screen point to
  \<^verbatim>\<open>[(x - tx) / k, (y - ty) / k]\<close>.
\<close>

record ZoomTransform =
  k :: jsnum
  tx :: jsnum
  ty :: jsnum

definition zoomIdentity :: ZoomTransform where
  "zoomIdentity = \<lparr>k = Num 1, tx = Num 0, ty = Num 0\<rparr>"

definition applyT :: "ZoomTransform \<Rightarrow> jsnum \<times> jsnum \<Rightarrow> jsnum \<times> jsnum" where
  "applyT t p = (js_add (js_mul (fst p) (k t)) (tx t), js_add (js_mul (snd p) (k t)) (ty t))"

definition invert :: "ZoomTransform \<Rightarrow> jsnum \<times> jsnum \<Rightarrow> jsnum \<times> jsnum" where
  "invert t p = (js_div (js_sub (fst p) (tx t)) (k t), js_div (js_sub (snd p) (ty t)) (k t))"

section \<open>Component state\<close>

text \<open>
  An end of a link is a node object once the layout engine has resolved it, and the
  identifier it was given (a string or a number) before.
\<close>

datatype endpoint = NodeObject node | IdString string | IdNumber jsnum

record link =
  source :: endpoint
  target :: endpoint
  linkIndex :: "nat option"

text \<open>The canvas element: whether it gives a 2d context, and its bounding rectangle.\<close>

record canvas =
  hasContext :: bool
  rectLeft :: jsnum
  rectTop :: jsnum

text \<open>
  The refs and the state of one mounted \<^verbatim>\<open>NetworkGraph\<close>, with the two props its handlers
  close over (\<open>selectedId\<close>, \<open>targetRadius\<close>). \<open>onSelectRef\<close> tells whether the optional
  callback is there.
\<close>

record component =
  canvasRef :: "canvas option"
  simulationNodes :: "node list"
  simulationLinks :: "link list"
  pixelRatio :: jsnum
  widthRef :: jsnum
  heightRef :: jsnum
  transformRef :: ZoomTransform
  selectedIdRef :: string
  onSelectRef :: bool
  prevSelectedNode :: "node option"
  selectedId :: string
  targetRadius :: jsnum

section \<open>Renderer\<close>

text \<open>
  What \<^verbatim>\<open>drawToCanvas\<close> does to the context and which callbacks it calls, in order. The
  two callbacks are the caller's; a call is recorded with the object it receives.
\<close>

datatype draw_op =
    SetTransform jsnum jsnum jsnum jsnum jsnum jsnum
  | ClearRect jsnum jsnum jsnum jsnum
  | DrawLink link
  | DrawNode node

text \<open>The body of the link loop: \<^verbatim>\<open>continue\<close> unless both ends are objects with \<open>x\<close> and \<open>y\<close>.\<close>

definition drawLinkStep :: "ZoomTransform \<Rightarrow> link \<Rightarrow> draw_op list" where
  "drawLinkStep t l =
     (case (source l, target l) of
        (NodeObject s, NodeObject g) \<Rightarrow>
          (case (x s, y s, x g, y g) of
             (Some sx, Some sy, Some gx, Some gy) \<Rightarrow>
               (let (sourceX, sourceY) = applyT t (sx, sy);
                    (targetX, targetY) = applyT t (gx, gy)
                in [DrawLink (l\<lparr>source := NodeObject (s\<lparr>x := Some sourceX, y := Some sourceY\<rparr>),
                                target := NodeObject (g\<lparr>x := Some targetX, y := Some targetY\<rparr>)\<rparr>)])
           | _ \<Rightarrow> [])
      | _ \<Rightarrow> [])"

text \<open>The inner function \<^verbatim>\<open>drawNode(node)\<close>, called where canvas and context are there.\<close>

definition drawNode :: "ZoomTransform \<Rightarrow> node \<Rightarrow> draw_op list" where
  "drawNode t nd =
     (if \<not> truthy (x nd) \<or> \<not> truthy (y nd) then []
      else case (x nd, y nd) of
        (Some nx, Some ny) \<Rightarrow>
          (let (x', y') = applyT t (nx, ny) in [DrawNode (nd\<lparr>x := Some x', y := Some y'\<rparr>)])
      | _ \<Rightarrow> [])"

text \<open>
  The body of the node loop, on the calls made so far and the variable
  \<^verbatim>\<open>selectedNode\<close>.
\<close>

definition nodeStep ::
  "ZoomTransform \<Rightarrow> string \<Rightarrow> draw_op list \<times> node option \<Rightarrow> node \<Rightarrow> draw_op list \<times> node option" where
  "nodeStep t sid acc nd =
     (if nodeId nd = sid then (fst acc, Some nd) else (fst acc @ drawNode t nd, snd acc))"

definition drawNodes :: "ZoomTransform \<Rightarrow> string \<Rightarrow> node list \<Rightarrow> draw_op list" where
  "drawNodes t sid nodes =
     (let (ops, selectedNode) = foldl (nodeStep t sid) ([], None) nodes
      in case selectedNode of None \<Rightarrow> ops | Some sn \<Rightarrow> ops @ drawNode t sn)"

definition drawToCanvas :: "component \<Rightarrow> draw_op list" where
  "drawToCanvas c =
     (case canvasRef c of
        None \<Rightarrow> []
      | Some cv \<Rightarrow>
          if \<not> hasContext cv then []
          else
            [SetTransform (pixelRatio c) (Num 0) (Num 0) (pixelRatio c) (Num 0) (Num 0),
             ClearRect (Num 0) (Num 0) (widthRef c) (heightRef c)]
            @ concat (map (drawLinkStep (transformRef c)) (simulationLinks c))
            @ drawNodes (transformRef c) (selectedIdRef c) (simulationNodes c))"

section \<open>Layout engine set-up and position cache\<close>

record window =
  innerWidth :: jsnum
  innerHeight :: jsnum

record NetworkGraphProps =
  width :: jsnum
  height :: jsnum
  nodes :: "node list"
  links :: "link list"

text \<open>
  The forces the simulation is created with: the strength of the many-body force and the
  two arguments of \<^verbatim>\<open>forceCenter\<close>.
\<close>

record forces =
  chargeStrength :: jsnum
  centerX :: jsnum
  centerY :: jsnum

definition simulation :: "NetworkGraphProps \<Rightarrow> window \<Rightarrow> forces" where
  "simulation props win =
     \<lparr>chargeStrength = Num (- 10),
      centerX = js_div (innerWidth win) (Num 2),
      centerY = js_div (innerHeight win) (Num 2)\<rparr>"

text \<open>
  The effect that runs when nodes or links change, up to the point where the lists are
  handed to the simulation: \<^verbatim>\<open>cachedNode?.x\<close> is the \<open>x\<close> of the first cached node with
  the same id, and undefined without one.
\<close>

definition mergeNode :: "node list \<Rightarrow> node \<Rightarrow> node" where
  "mergeNode cache nd =
     (let cachedNode = find (\<lambda>cachedNode. nodeId cachedNode = nodeId nd) cache
      in nd\<lparr>x := Option.bind cachedNode x, y := Option.bind cachedNode y\<rparr>)"

definition nodesEffect :: "component \<Rightarrow> NetworkGraphProps \<Rightarrow> component" where
  "nodesEffect c props =
     c\<lparr>simulationNodes := map (mergeNode (simulationNodes c)) (nodes props),
       simulationLinks := links props\<rparr>"

text \<open>
  The update made while rendering: with a non-empty \<open>selectedId\<close> other than the memoized
  node's id, the memo becomes the simulation node of that id (or undefined).
\<close>

definition render :: "component \<Rightarrow> string \<Rightarrow> component" where
  "render c sid =
     (let c' = c\<lparr>selectedId := sid, selectedIdRef := sid\<rparr>
      in if sid \<noteq> [] \<and> Some sid \<noteq> map_option nodeId (prevSelectedNode c)
         then c'\<lparr>prevSelectedNode := find (\<lambda>nd. nodeId nd = sid) (simulationNodes c)\<rparr>
         else c')"

section \<open>Pointer and keyboard handlers\<close>

datatype error = TypeError

datatype effect = OnSelect string | RequestRedraw | PreventDefault

record MouseEvent =
  clientX :: jsnum
  clientY :: jsnum

record KeyboardEvent =
  key :: string
  shiftKey :: bool

text \<open>\<^verbatim>\<open>onSelectRef.current?.(s)\<close>: a call when the callback is there, nothing otherwise.\<close>

definition callOnSelect :: "component \<Rightarrow> string \<Rightarrow> effect list" where
  "callOnSelect c s = (if onSelectRef c then [OnSelect s] else [])"

text \<open>
  The two sides of the comparison in \<^verbatim>\<open>handleClick\<close>: the distance
  \<^verbatim>\<open>Math.sqrt(dx * dx + dy * dy)\<close> of a node at \<open>(nx, ny)\<close> from the inverted click point
  \<open>p\<close>, and \<^verbatim>\<open>targetRadius / transformRef.current.k\<close>.
\<close>

definition pointerDistance :: "jsnum \<times> jsnum \<Rightarrow> jsnum \<Rightarrow> jsnum \<Rightarrow> jsnum" where
  "pointerDistance p nx ny =
     (let dx = js_sub nx (fst p); dy = js_sub ny (snd p)
      in js_sqrt (js_add (js_mul dx dx) (js_mul dy dy)))"

definition hitRadius :: "component \<Rightarrow> jsnum" where
  "hitRadius c = js_div (targetRadius c) (k (transformRef c))"

text \<open>The predicate given to \<^verbatim>\<open>find\<close> in \<^verbatim>\<open>handleClick\<close>.\<close>

definition isHit :: "component \<Rightarrow> jsnum \<times> jsnum \<Rightarrow> node \<Rightarrow> bool" where
  "isHit c p nd =
     (if \<not> truthy (x nd) \<or> \<not> truthy (y nd) then False
      else case (x nd, y nd) of
        (Some nx, Some ny) \<Rightarrow> js_lt (pointerDistance p nx ny) (hitRadius c)
      | _ \<Rightarrow> False)"

definition clickPoint :: "component \<Rightarrow> canvas \<Rightarrow> MouseEvent \<Rightarrow> jsnum \<times> jsnum" where
  "clickPoint c cv event =
     invert (transformRef c)
       (js_sub (clientX event) (rectLeft cv), js_sub (clientY event) (rectTop cv))"

definition clickedNode :: "component \<Rightarrow> canvas \<Rightarrow> MouseEvent \<Rightarrow> node option" where
  "clickedNode c cv event = find (isHit c (clickPoint c cv event)) (simulationNodes c)"

definition handleClick :: "component \<Rightarrow> MouseEvent \<Rightarrow> effect list" where
  "handleClick c event =
     (case canvasRef c of
        None \<Rightarrow> []
      | Some cv \<Rightarrow>
          callOnSelect c (case clickedNode c cv event of None \<Rightarrow> [] | Some nd \<Rightarrow> nodeId nd)
          @ [RequestRedraw])"

text \<open>
  The argument of the call in the Tab branch:
  \<^verbatim>\<open>prevSelectedNode?.id || simulationNodes.current[0].id\<close>. Reading \<^verbatim>\<open>id\<close> of the
  first element of an empty array throws.
\<close>

definition tabTarget :: "component \<Rightarrow> error + string" where
  "tabTarget c =
     (case prevSelectedNode c of
        Some p \<Rightarrow> if nodeId p \<noteq> [] then Inr (nodeId p)
                  else (case simulationNodes c of [] \<Rightarrow> Inl TypeError | nd # _ \<Rightarrow> Inr (nodeId nd))
      | None \<Rightarrow> (case simulationNodes c of [] \<Rightarrow> Inl TypeError | nd # _ \<Rightarrow> Inr (nodeId nd)))"

definition keyToDirection :: "string \<Rightarrow> Direction option" where
  "keyToDirection ky =
     (if ky = ''ArrowUp'' then Some N
      else if ky = ''ArrowDown'' then Some S
      else if ky = ''ArrowRight'' then Some E
      else if ky = ''ArrowLeft'' then Some W
      else None)"

text \<open>The elements of an array are distinct objects: the address of each is its index.\<close>

definition objects :: "node list \<Rightarrow> node_obj list" where
  "objects ns = zip [0 ..< length ns] ns"

definition escapeBranch :: "component \<Rightarrow> KeyboardEvent \<Rightarrow> effect list" where
  "escapeBranch c event =
     (if key event = ''Escape'' then callOnSelect c [] @ [RequestRedraw, PreventDefault] else [])"

text \<open>
  The Tab branch. The argument of an optional call is evaluated only when the callback is
  there.
\<close>

definition tabBranch :: "component \<Rightarrow> KeyboardEvent \<Rightarrow> error + effect list" where
  "tabBranch c event =
     (if key event = ''Tab'' \<and> \<not> shiftKey event \<and> selectedId c = [] then
        (if onSelectRef c then
           (case tabTarget c of
              Inl e \<Rightarrow> Inl e
            | Inr s \<Rightarrow> Inr [OnSelect s, RequestRedraw, PreventDefault])
         else Inr [RequestRedraw, PreventDefault])
      else Inr [])"

definition arrowBranch :: "component \<Rightarrow> KeyboardEvent \<Rightarrow> effect list" where
  "arrowBranch c event =
     (case keyToDirection (key event) of
        None \<Rightarrow> []
      | Some direction \<Rightarrow>
          (let selectedNode = find (\<lambda>nd. nodeId (snd nd) = selectedId c) (objects (simulationNodes c));
               nextNode = getNextNode (objects (simulationNodes c)) selectedNode direction
           in (case nextNode of
                 None \<Rightarrow> []
               | Some nd \<Rightarrow> callOnSelect c (nodeId (snd nd)) @ [RequestRedraw])
              @ [PreventDefault]))"

definition onKeyDown :: "component \<Rightarrow> KeyboardEvent \<Rightarrow> error + effect list" where
  "onKeyDown c event =
     (case tabBranch c event of
        Inl e \<Rightarrow> Inl e
      | Inr tabEffects \<Rightarrow> Inr (escapeBranch c event @ tabEffects @ arrowBranch c event))"

section \<open>Notions used to state the properties\<close>

subsection \<open>The navigator's side test and loop\<close>

text \<open>
  The selected node is at \<open>(sx, sy)\<close>, the other node at \<open>(a, b)\<close>: is it on the side of the
  direction?
\<close>

definition onSide :: "Direction \<Rightarrow> real \<Rightarrow> real \<Rightarrow> real \<Rightarrow> real \<Rightarrow> bool" where
  "onSide direction sx sy a b =
     (case direction of N \<Rightarrow> b \<le> sy | S \<Rightarrow> b \<ge> sy | E \<Rightarrow> a \<ge> sx | W \<Rightarrow> a \<le> sx)"

text \<open>The test of the loop body as the source makes it, and the score it computes.\<close>

definition qualifies :: "ref \<Rightarrow> Position \<Rightarrow> Direction \<Rightarrow> node_obj \<Rightarrow> bool" where
  "qualifies sref sp d nd =
     (fst nd \<noteq> sref \<and>
      (case (x (snd nd), y (snd nd)) of
         (Some nx, Some ny) \<Rightarrow> \<not> wrongSide d sp \<lparr>px = nx, py = ny\<rparr>
       | _ \<Rightarrow> False))"

definition scoreOf :: "Position \<Rightarrow> Direction \<Rightarrow> node_obj \<Rightarrow> jsnum" where
  "scoreOf sp d nd =
     (case (x (snd nd), y (snd nd)) of
        (Some nx, Some ny) \<Rightarrow> score sp \<lparr>px = nx, py = ny\<rparr> d
      | _ \<Rightarrow> NaN)"

subsection \<open>What the renderer hands to the callbacks\<close>

text \<open>A link is resolved when both ends are node objects with an \<open>x\<close> and a \<open>y\<close>.\<close>

definition hasPosition :: "node \<Rightarrow> bool" where
  "hasPosition nd = (x nd \<noteq> None \<and> y nd \<noteq> None)"

definition linkResolved :: "link \<Rightarrow> bool" where
  "linkResolved l =
     (case (source l, target l) of
        (NodeObject s, NodeObject g) \<Rightarrow> hasPosition s \<and> hasPosition g
      | _ \<Rightarrow> False)"

text \<open>The node with its position mapped to screen space.\<close>

definition screenNode :: "ZoomTransform \<Rightarrow> node \<Rightarrow> node" where
  "screenNode t nd =
     (case (x nd, y nd) of
        (Some a, Some b) \<Rightarrow> nd\<lparr>x := Some (fst (applyT t (a, b))), y := Some (snd (applyT t (a, b)))\<rparr>
      | _ \<Rightarrow> nd)"

definition screenEnd :: "ZoomTransform \<Rightarrow> endpoint \<Rightarrow> endpoint" where
  "screenEnd t e = (case e of NodeObject nd \<Rightarrow> NodeObject (screenNode t nd) | _ \<Rightarrow> e)"

definition screenLink :: "ZoomTransform \<Rightarrow> link \<Rightarrow> link" where
  "screenLink t l = l\<lparr>source := screenEnd t (source l), target := screenEnd t (target l)\<rparr>"

definition positioned :: "node \<Rightarrow> bool" where
  "positioned nd = (truthy (x nd) \<and> truthy (y nd))"

fun isDrawLink :: "draw_op \<Rightarrow> bool" where
  "isDrawLink (DrawLink l) = True"
| "isDrawLink _ = False"

section \<open>Example states\<close>

definition mkNode :: "string \<Rightarrow> jsnum option \<Rightarrow> jsnum option \<Rightarrow> node" where
  "mkNode i a b =
     \<lparr>nodeId = i, index = None, x = a, y = b, vx = None, vy = None, fx = None, fy = None\<rparr>"

text \<open>Four objects for the navigator; \<open>navTwin\<close> lies on \<open>navA\<close>, \<open>navB\<close> north of it.\<close>

definition navA :: node_obj where
  "navA = (0, mkNode ''a'' (Some (Num 0)) (Some (Num 0)))"

definition navB :: node_obj where
  "navB = (1, mkNode ''b'' (Some (Num 0)) (Some (Num (- 10))))"

definition navC :: node_obj where
  "navC = (2, mkNode ''c'' (Some (Num 5)) (Some (Num 5)))"

definition navTwin :: node_obj where
  "navTwin = (4, mkNode ''t'' (Some (Num 0)) (Some (Num 0)))"

text \<open>A mounted component with nothing in it: identity transform, default radius.\<close>

definition mounted :: component where
  "mounted =
     \<lparr>canvasRef = Some \<lparr>hasContext = True, rectLeft = Num 0, rectTop = Num 0\<rparr>,
      simulationNodes = [], simulationLinks = [],
      pixelRatio = Num 1, widthRef = Num 400, heightRef = Num 300,
      transformRef = zoomIdentity,
      selectedIdRef = [], onSelectRef = True, prevSelectedNode = None,
      selectedId = [], targetRadius = Num 16\<rparr>"

definition tabEvent :: KeyboardEvent where
  "tabEvent = \<lparr>key = ''Tab'', shiftKey = False\<rparr>"

text \<open>
  Zoomed in twice and panned by \<open>(10, 20)\<close>, with one node at \<open>(3, 4)\<close> and a radius of
  10: the radius in model space is 5. The first click is at the screen image of the model
  origin, 5 away from the node; the second at the image of \<open>(3, 0)\<close>, 4 away.
\<close>

definition zoomed :: component where
  "zoomed =
     mounted\<lparr>transformRef := \<lparr>k = Num 2, tx = Num 10, ty = Num 20\<rparr>,
             targetRadius := Num 10,
             simulationNodes := [mkNode ''n'' (Some (Num 3)) (Some (Num 4))]\<rparr>"

definition clickAtOrigin :: MouseEvent where
  "clickAtOrigin = \<lparr>clientX = Num 10, clientY = Num 20\<rparr>"

definition clickNear :: MouseEvent where
  "clickNear = \<lparr>clientX = Num 16, clientY = Num 20\<rparr>"

text \<open>Two cached nodes with positions, and new props that keep one and bring one.\<close>

definition cached :: component where
  "cached =
     mounted\<lparr>simulationNodes :=
               [mkNode ''a'' (Some (Num 1)) (Some (Num 2)),
                mkNode ''b'' (Some (Num 3)) (Some (Num 4))]\<rparr>"

definition propsBZ :: NetworkGraphProps where
  "propsBZ =
     \<lparr>width = Num 400, height = Num 300,
      nodes = [mkNode ''b'' None None, mkNode ''z'' (Some (Num 9)) (Some (Num 9))],
      links = []\<rparr>"

text \<open>
  A history that leaves a memo behind: nodes \<open>a\<close> and \<open>b\<close> arrive, \<open>a\<close> is selected, then
  the selection is cleared and the nodes are replaced by \<open>b\<close> alone.
\<close>

definition propsAB :: NetworkGraphProps where
  "propsAB =
     \<lparr>width = Num 400, height = Num 300,
      nodes = [mkNode ''a'' None None, mkNode ''b'' None None], links = []\<rparr>"

definition propsB :: NetworkGraphProps where
  "propsB = \<lparr>width = Num 400, height = Num 300, nodes = [mkNode ''b'' None None], links = []\<rparr>"

definition afterRemoval :: component where
  "afterRemoval = nodesEffect (render (render (nodesEffect mounted propsAB) ''a'') []) propsB"

definition onlyB :: component where
  "onlyB = nodesEffect mounted propsB"

text \<open>A window larger than the viewport given to the component.\<close>

definition bigWindow :: window where
  "bigWindow = \<lparr>innerWidth = Num 1000, innerHeight = Num 800\<rparr>"

text \<open>The same history before the nodes are replaced: \<open>a\<close> is memoized and still there.\<close>

definition memoA :: component where
  "memoA = render (render (nodesEffect mounted propsAB) ''a'') []"

text \<open>
  A graph to draw: \<open>a\<close> is selected, \<open>u\<close> has no position yet; one link joins \<open>a\<close> and
  \<open>b\<close>, one still has an id for a target, one ends at \<open>u\<close>.
\<close>

definition nodeA :: node where
  "nodeA = mkNode ''a'' (Some (Num 1)) (Some (Num 2))"

definition nodeB :: node where
  "nodeB = mkNode ''b'' (Some (Num 3)) (Some (Num 4))"

definition nodeU :: node where
  "nodeU = mkNode ''u'' None None"

definition drawn :: component where
  "drawn =
     mounted\<lparr>transformRef := \<lparr>k = Num 2, tx = Num 10, ty = Num 20\<rparr>,
             selectedIdRef := ''a'',
             simulationNodes := [nodeA, nodeB, nodeU],
             simulationLinks :=
               [\<lparr>source = NodeObject nodeA, target = NodeObject nodeB, linkIndex = None\<rparr>,
                \<lparr>source = NodeObject nodeA, target = IdString ''zz'', linkIndex = None\<rparr>,
                \<lparr>source = NodeObject nodeU, target = NodeObject nodeB, linkIndex = None\<rparr>]\<rparr>"

text \<open>A node pinned on the vertical axis of the model, at \<open>(0, 5)\<close>, and a second node.\<close>

definition nodeP :: node where
  "nodeP = (mkNode ''p'' (Some (Num 0)) (Some (Num 5)))\<lparr>fx := Some (Num 0), fy := Some (Num 5)\<rparr>"

definition axisGraph :: component where
  "axisGraph = mounted\<lparr>simulationNodes := [nodeP, nodeB]\<rparr>"

text \<open>A node on the vertical axis of the model, north of \<open>navC\<close>.\<close>

definition onAxis :: node_obj where
  "onAxis = (5, mkNode ''o'' (Some (Num 0)) (Some (Num 3)))"

section \<open>Properties\<close>

subsection \<open>Rounding\<close>

text \<open>An integer below \<open>2\<close> to the power 53 in magnitude is a binary64 value: it is not rounded.\<close>

lemma roundEven_of_int: "roundEven (of_int m) = m"
  by (simp add: roundEven_def)

lemma ulpExponent_int:
  assumes "n \<noteq> 0" and "\<bar>n\<bar> < 2 ^ 53"
  shows "\<exists>j \<le> 52. ulpExponent (of_int n) = - int j"
proof -
  let ?r = "\<bar>of_int n :: real\<bar>"
  from assms(1) have "1 \<le> \<bar>n\<bar>" by simp
  then have "(1::real) \<le> of_int \<bar>n\<bar>" by (simp only: of_int_1_le_iff)
  then have one: "1 \<le> ?r" by simp
  from assms(2) have "(of_int \<bar>n\<bar> :: real) < of_int (2 ^ 53)" by (simp only: of_int_less_iff)
  then have below: "?r < 2 ^ 53" by simp
  have "?r < 2 powr 53" using below by (simp add: powr_realpow [of 2 53, simplified])
  then have up: "log 2 ?r < 53"
    using one by (simp add: log_less_iff)
  from one have lo: "0 \<le> log 2 ?r" by simp
  let ?e = "\<lfloor>log 2 ?r\<rfloor>"
  from lo have e0: "0 \<le> ?e" by simp
  from up have e52: "?e \<le> 52" by linarith
  from e0 e52 have "ulpExponent (of_int n) = - int (nat (52 - ?e))"
    by (simp add: ulpExponent_def)
  moreover from e0 have "nat (52 - ?e) \<le> 52" by linarith
  ultimately show ?thesis by blast
qed

lemma double_of_int:
  assumes "\<bar>n\<bar> < 2 ^ 53"
  shows "double (of_int n) = Num (of_int n)"
proof (cases "n = 0")
  case True
  then show ?thesis by (simp add: double_def)
next
  case False
  from ulpExponent_int [OF False assms] obtain j where j: "j \<le> 52"
    and q: "ulpExponent (of_int n) = - int j" by blast
  have u: "2 powr of_int (ulpExponent (of_int n)) = inverse ((2::real) ^ j)"
    by (simp add: q powr_minus powr_realpow)
  have quot: "(of_int n :: real) / inverse (2 ^ j) = of_int (n * 2 ^ j)"
    by (simp add: field_simps)
  have undo: "(of_int (n * 2 ^ j) :: real) * inverse (2 ^ j) = of_int n"
    by simp
  have small: "\<bar>of_int n :: real\<bar> < 2 ^ 1024"
  proof -
    from assms have "(of_int \<bar>n\<bar> :: real) < of_int (2 ^ 53)" by (simp only: of_int_less_iff)
    then have "\<bar>of_int n :: real\<bar> < 2 ^ 53" by simp
    also have "(2::real) ^ 53 \<le> 2 ^ 1024" by (rule power_increasing) simp_all
    finally show ?thesis .
  qed
  from False small show ?thesis
    unfolding double_def u Let_def quot roundEven_of_int undo by simp
qed

lemma double_numeral [simp]:
  "(numeral w :: int) < 2 ^ 53 \<Longrightarrow> double (numeral w) = Num (numeral w)"
  using double_of_int [of "numeral w"] by simp

lemma double_neg_numeral [simp]:
  "(numeral w :: int) < 2 ^ 53 \<Longrightarrow> double (- numeral w) = Num (- numeral w)"
  using double_of_int [of "- numeral w"] by simp

lemma double_zero [simp]: "double 0 = Num 0"
  by (simp add: double_def)

lemma double_one [simp]: "double 1 = Num 1"
  using double_of_int [of 1] by simp

text \<open>
  Rounding goes up from the integer part or stays; a result below half the least subnormal
  number underflows to zero, and a result from \<open>2\<close> to the power 1024 on overflows.
\<close>

lemma roundEven_ge_floor: "\<lfloor>r\<rfloor> \<le> roundEven r"
  by (simp add: roundEven_def Let_def)

lemma roundEven_small: "0 \<le> r \<Longrightarrow> r < 1 / 2 \<Longrightarrow> roundEven r = 0"
proof -
  assume r: "0 \<le> r" "r < 1 / 2"
  then have "\<lfloor>r\<rfloor> = 0" by linarith
  with r show ?thesis by (simp add: roundEven_def)
qed

lemma double_underflow:
  assumes "0 < r" and "r < 2 powr (- 1075)"
  shows "double r = Num 0"
proof -
  from assms have "log 2 r < - 1075"
    by (simp add: log_less_iff)
  then have "\<lfloor>log 2 \<bar>r\<bar>\<rfloor> \<le> - 1022" using assms(1) by simp
  then have q: "ulpExponent r = - 1074" by (simp add: ulpExponent_def)
  let ?u = "2 powr (- 1074) :: real"
  have u: "2 powr of_int (ulpExponent r) = ?u" by (simp add: q)
  have half: "(2::real) powr (- 1075) = ?u / 2"
    using powr_add [of "2::real" "- 1074" "- 1"] by (simp add: powr_minus)
  have "0 \<le> r / ?u" using assms(1) by simp
  moreover have "r / ?u < 1 / 2"
  proof -
    have "r < ?u / 2" using assms(2) half by simp
    then show ?thesis by (simp add: field_simps)
  qed
  ultimately have "roundEven (r / ?u) = 0" by (rule roundEven_small)
  with assms(1) show ?thesis by (simp add: double_def u Let_def)
qed

lemma double_overflow:
  assumes "2 ^ 1024 \<le> r"
  shows "double r = PInf"
proof -
  have "(0::real) < 2 ^ 1024" by simp
  with assms have pos: "0 < r" by linarith
  let ?e = "\<lfloor>log 2 \<bar>r\<bar>\<rfloor>"
  have "(2::real) powr 1024 \<le> r" using assms by (simp add: powr_realpow [of 2 1024, simplified])
  then have "1024 \<le> log 2 r" using pos by (simp add: le_log_iff)
  then have e: "1024 \<le> ?e" using pos by simp
  then have q: "ulpExponent r = ?e - 52" by (simp add: ulpExponent_def)
  let ?u = "2 powr of_int (?e - 52) :: real"
  have upos: "0 < ?u" by simp
  have lower: "2 powr of_int ?e \<le> r"
    using pos floor_log_eq_powr_iff [of r 2 ?e] by simp
  have split: "(2::real) powr of_int ?e = 2 ^ 52 * ?u"
    using powr_add [of "2::real" 52 "of_int (?e - 52)"] by (simp add: powr_realpow [of 2 52, simplified])
  have "2 ^ 52 \<le> r / ?u" using lower split upos by (simp add: field_simps)
  then have "(2 ^ 52 :: int) \<le> \<lfloor>r / ?u\<rfloor>" by (simp add: le_floor_iff)
  with roundEven_ge_floor [of "r / ?u"] have n: "(2 ^ 52 :: int) \<le> roundEven (r / ?u)" by linarith
  then have "(2 ^ 52 :: real) \<le> of_int (roundEven (r / ?u))"
    by (metis of_int_le_iff of_int_numeral of_int_power)
  then have "2 ^ 52 * ?u \<le> of_int (roundEven (r / ?u)) * ?u"
    using upos by simp
  moreover have "(2::real) ^ 1024 \<le> 2 powr of_int ?e"
  proof -
    from e have "(1024::real) \<le> of_int ?e" by linarith
    then have "(2::real) powr 1024 \<le> 2 powr of_int ?e" by (rule powr_mono) simp
    then show ?thesis by simp
  qed
  ultimately have big: "2 ^ 1024 \<le> of_int (roundEven (r / ?u)) * ?u"
    using split by linarith
  have nonneg: "0 \<le> of_int (roundEven (r / ?u)) * ?u" using n upos by simp
  from pos big nonneg show ?thesis
    by (simp add: double_def q Let_def)
qed

text \<open>
  So the square of a small difference vanishes, the difference of two large coordinates is
  infinite, and a tie goes to the even neighbour.
\<close>

lemma pow_underflow: "js_pow2 (Num (1 / 10 ^ 200)) = Num 0"
proof -
  have "(1 / 10 ^ 200 :: real)\<^sup>2 < 2 powr (- 1075)"
    by (simp add: powr_minus powr_realpow [of 2 1075, simplified] power_one_over field_simps)
  then show ?thesis by (simp add: double_underflow)
qed

lemma sub_overflow: "js_sub (Num (10 ^ 308)) (Num (- (10 ^ 308))) = PInf"
  by (simp add: js_sub_def double_overflow)


lemma double_tie: "double (2 ^ 53 + 1) = Num (2 ^ 53)"
proof -
  let ?r = "2 ^ 53 + 1 :: real"
  have "\<lfloor>log 2 \<bar>?r\<bar>\<rfloor> = 53"
    by (subst floor_log_eq_powr_iff) simp_all
  then have q: "ulpExponent ?r = 1" by (simp add: ulpExponent_def)
  have n: "roundEven (?r / 2) = 2 ^ 52"
    by (simp add: roundEven_def)
  show ?thesis
    unfolding double_def Let_def q by (simp add: n [simplified])
qed

lemma js_sub_Num [simp]: "js_sub (Num a) (Num b) = double (a - b)"
  by (simp add: js_sub_def)

text \<open>NaN on either side of a sum or a comparison decides the result.\<close>

lemma js_add_NaN_right [simp]: "js_add v NaN = NaN"
  by (cases v) simp_all

lemma js_sub_NaN_right [simp]: "js_sub v NaN = NaN"
  by (simp add: js_sub_def)

lemma js_lt_NaN_right [simp]: "js_lt v NaN = False"
  by (cases v) simp_all

subsection \<open>Angle and score of coincident points\<close>

lemma sides_coincident:
  "oppositeSide \<lparr>px = Num sx, py = Num sy\<rparr> \<lparr>px = Num sx, py = Num sy\<rparr> d = Num 0"
  "adjacentSide \<lparr>px = Num sx, py = Num sy\<rparr> \<lparr>px = Num sx, py = Num sy\<rparr> d = Num 0"
  by (cases d; simp add: oppositeSide_def adjacentSide_def)+

lemma getDistance_coincident:
  "getDistance \<lparr>px = Num sx, py = Num sy\<rparr> \<lparr>px = Num sx, py = Num sy\<rparr> = Num 0"
  by (simp add: getDistance_def)

text \<open>
  Claim C5 fails on the code. For a point that coincides with the selected one, whatever
  its finite coordinates and the direction, both sides are zero, the quotient \<open>0 / 0\<close> is
  NaN, and so are the angle and the score \<open>(1 / 0) * (\<pi>/2 - NaN)\<close>: the adjacent side is
  not guarded, and NaN reaches the score.
\<close>

theorem getAngle_coincident_nan:
  "getAngle \<lparr>px = Num sx, py = Num sy\<rparr> \<lparr>px = Num sx, py = Num sy\<rparr> d = NaN \<and>
   score \<lparr>px = Num sx, py = Num sy\<rparr> \<lparr>px = Num sx, py = Num sy\<rparr> d = NaN"
  by (simp add: getAngle_def score_def sides_coincident getDistance_coincident signed_inf_def)

subsection \<open>The loop of the navigator\<close>

lemma wrongSide_Num:
  "wrongSide d \<lparr>px = Num sx, py = Num sy\<rparr> \<lparr>px = Num a, py = Num b\<rparr> \<longleftrightarrow> \<not> onSide d sx sy a b"
  by (cases d) (auto simp: wrongSide_def onSide_def js_gt_def)


lemma loopBody_skip: "\<not> qualifies sref sp d nd \<Longrightarrow> loopBody sref sp d res nd = res"
  by (auto simp: loopBody_def qualifies_def split: option.splits)

lemma loopBody_take:
  "qualifies sref sp d nd \<Longrightarrow>
   loopBody sref sp d res nd =
     (case res of
        None \<Rightarrow> Some (nd, scoreOf sp d nd)
      | Some (rn, rs) \<Rightarrow> if js_lt rs (scoreOf sp d nd) then Some (nd, scoreOf sp d nd) else res)"
  by (auto simp: loopBody_def qualifies_def scoreOf_def Let_def split: option.splits)

lemma loop_None_iff:
  "foldl (loopBody sref sp d) res ns = None \<longleftrightarrow>
     res = None \<and> (\<forall>nd \<in> set ns. \<not> qualifies sref sp d nd)"
proof (induction ns arbitrary: res)
  case Nil
  then show ?case by simp
next
  case (Cons nd ns)
  show ?case
  proof (cases "qualifies sref sp d nd")
    case True
    then show ?thesis
      by (auto simp: Cons.IH loopBody_take split: option.splits)
  next
    case False
    then show ?thesis by (simp add: Cons.IH loopBody_skip)
  qed
qed

text \<open>A best node with the score NaN is never replaced.\<close>

lemma loopBody_nan_kept: "loopBody sref sp d (Some (r, NaN)) nd = Some (r, NaN)"
  by (simp add: loopBody_def Let_def split: option.splits)

lemmas nav_defs = navA_def navB_def navC_def navTwin_def mkNode_def

lemma twin_first:
  "loopBody (fst navA) \<lparr>px = Num 0, py = Num 0\<rparr> N
     (loopBody (fst navA) \<lparr>px = Num 0, py = Num 0\<rparr> N None navA) navTwin
   = Some (navTwin, NaN)"
  using getAngle_coincident_nan [of 0 0 N]
  by (simp add: loopBody_def nav_defs wrongSide_def js_gt_def)

lemma navB_first:
  "loopBody (fst navA) \<lparr>px = Num 0, py = Num 0\<rparr> N
     (loopBody (fst navA) \<lparr>px = Num 0, py = Num 0\<rparr> N None navA) navB
   = Some (navB, score \<lparr>px = Num 0, py = Num 0\<rparr> \<lparr>px = Num 0, py = Num (- 10)\<rparr> N)"
  by (simp add: loopBody_def nav_defs wrongSide_def js_gt_def Let_def)

lemma navTwin_after:
  "loopBody (fst navA) \<lparr>px = Num 0, py = Num 0\<rparr> N (Some (navB, s)) navTwin = Some (navB, s)"
  using getAngle_coincident_nan [of 0 0 N]
  by (simp add: loopBody_def nav_defs wrongSide_def js_gt_def)

text \<open>
  Claim C1 fails on the code. With the selected node \<open>navA\<close> at \<open>(0, 0)\<close>, \<open>navTwin\<close> on the
  same point and \<open>navB\<close> straight north at \<open>(0, -10)\<close>, north returns \<open>navTwin\<close>: its score is
  NaN, and the comparison that should let the better \<open>navB\<close> replace it is false. With the
  two in the other order, \<open>navB\<close> is returned.
\<close>

theorem getNextNode_keeps_nan:
  "getNextNode [navA, navTwin, navB] (Some navA) N = Some navTwin \<and>
   score \<lparr>px = Num 0, py = Num 0\<rparr> \<lparr>px = Num 0, py = Num 0\<rparr> N = NaN \<and>
   \<not> wrongSide N \<lparr>px = Num 0, py = Num 0\<rparr> \<lparr>px = Num 0, py = Num (- 10)\<rparr> \<and>
   getNextNode [navA, navB, navTwin] (Some navA) N = Some navB"
proof -
  have sel: "x (snd navA) = Some (Num 0)" "y (snd navA) = Some (Num 0)"
    by (simp_all add: nav_defs)
  have "getNextNode [navA, navTwin, navB] (Some navA) N = Some navTwin"
    by (simp add: getNextNode_def sel twin_first loopBody_nan_kept)
  moreover have "getNextNode [navA, navB, navTwin] (Some navA) N = Some navB"
    by (simp add: getNextNode_def sel navB_first navTwin_after)
  moreover have "\<not> wrongSide N \<lparr>px = Num 0, py = Num 0\<rparr> \<lparr>px = Num 0, py = Num (- 10)\<rparr>"
    by (simp add: wrongSide_def js_gt_def)
  ultimately show ?thesis using getAngle_coincident_nan [of 0 0 N] by simp
qed

subsection \<open>Hit test\<close>

lemma isHit_positioned:
  assumes "x nd = Some nx" and "y nd = Some ny" and "truthy (Some nx)" and "truthy (Some ny)"
  shows "isHit c p nd \<longleftrightarrow> js_lt (pointerDistance p nx ny) (hitRadius c)"
  using assms by (simp add: isHit_def)

lemma find_first:
  "P e \<Longrightarrow> \<forall>m \<in> set pre. \<not> P m \<Longrightarrow> find P (pre @ e # post) = Some e"
  by (induction pre) auto

lemma find_some:
  assumes "e \<in> set xs" and "P e"
  shows "\<exists>m \<in> set xs. find P xs = Some m \<and> P m"
proof (cases "find P xs")
  case None
  with assms show ?thesis by (auto simp: find_None_iff)
next
  case (Some m)
  then show ?thesis by (auto simp: find_Some_iff)
qed

lemma find_holds: "find P xs = Some e \<Longrightarrow> P e"
  by (auto simp: find_Some_iff)

lemma handleClick_found:
  assumes "canvasRef c = Some cv" and "onSelectRef c"
  shows "handleClick c event =
           [OnSelect (case clickedNode c cv event of None \<Rightarrow> [] | Some m \<Rightarrow> nodeId m),
            RequestRedraw]"
  using assms by (simp add: handleClick_def callOnSelect_def)

text \<open>
  Claim C2, as the code has it. The click is inverted to the model point \<open>clickPoint\<close>. For
  a node of the list with non-zero coordinates: when its distance from that point is
  strictly less than the radius divided by the scale (both as the code computes them), the
  click reports a node that is hit, and reports this node when no node before it in the
  list is hit; when its distance is not less, be it equal, the click does not find it.
  When no node is hit, the empty id is reported.
\<close>

theorem handleClick_strict:
  assumes canvas: "canvasRef c = Some cv" and cb: "onSelectRef c"
    and mem: "nd \<in> set (simulationNodes c)"
    and pos: "x nd = Some nx" "y nd = Some ny"
    and nonzero: "truthy (Some nx)" "truthy (Some ny)"
  shows "(js_lt (pointerDistance (clickPoint c cv event) nx ny) (hitRadius c) \<longrightarrow>
            (\<exists>m \<in> set (simulationNodes c).
               isHit c (clickPoint c cv event) m \<and>
               handleClick c event = [OnSelect (nodeId m), RequestRedraw]) \<and>
            (\<forall>pre post.
               simulationNodes c = pre @ nd # post \<and>
               (\<forall>m \<in> set pre. \<not> isHit c (clickPoint c cv event) m) \<longrightarrow>
               handleClick c event = [OnSelect (nodeId nd), RequestRedraw])) \<and>
         (\<not> js_lt (pointerDistance (clickPoint c cv event) nx ny) (hitRadius c) \<longrightarrow>
            clickedNode c cv event \<noteq> Some nd) \<and>
         ((\<forall>m \<in> set (simulationNodes c). \<not> isHit c (clickPoint c cv event) m) \<longrightarrow>
            handleClick c event = [OnSelect [], RequestRedraw])"
proof -
  let ?p = "clickPoint c cv event"
  note hit = isHit_positioned [OF pos nonzero, of c ?p]
  note report = handleClick_found [OF canvas cb, of event]
  have within: "\<exists>m \<in> set (simulationNodes c).
                  isHit c ?p m \<and> handleClick c event = [OnSelect (nodeId m), RequestRedraw]"
    if "js_lt (pointerDistance ?p nx ny) (hitRadius c)"
  proof -
    from that hit have "isHit c ?p nd" by simp
    from find_some [OF mem, of "isHit c ?p", OF this]
    obtain m where "m \<in> set (simulationNodes c)" and "clickedNode c cv event = Some m"
      and "isHit c ?p m"
      by (auto simp: clickedNode_def)
    with report show ?thesis by auto
  qed
  have first: "handleClick c event = [OnSelect (nodeId nd), RequestRedraw]"
    if "js_lt (pointerDistance ?p nx ny) (hitRadius c)"
      and "simulationNodes c = pre @ nd # post"
      and "\<forall>m \<in> set pre. \<not> isHit c ?p m" for pre post
  proof -
    from that(1) hit have "isHit c ?p nd" by simp
    from find_first [of "isHit c ?p", OF this that(3), of post] that(2)
    have "clickedNode c cv event = Some nd" by (simp add: clickedNode_def)
    with report show ?thesis by simp
  qed
  have missed: "clickedNode c cv event \<noteq> Some nd"
    if "\<not> js_lt (pointerDistance ?p nx ny) (hitRadius c)"
  proof
    assume "clickedNode c cv event = Some nd"
    then have "isHit c ?p nd" unfolding clickedNode_def by (rule find_holds)
    with hit that show False by simp
  qed
  have none: "handleClick c event = [OnSelect [], RequestRedraw]"
    if "\<forall>m \<in> set (simulationNodes c). \<not> isHit c ?p m"
  proof -
    from that have "clickedNode c cv event = None"
      by (simp add: clickedNode_def find_None_iff)
    with report show ?thesis by simp
  qed
  from within first missed none show ?thesis by blast
qed

lemmas state_defs = mounted_def zoomed_def cached_def afterRemoval_def onlyB_def memoA_def
  propsAB_def propsB_def propsBZ_def mkNode_def zoomIdentity_def

lemma zoomed_point:
  "clickPoint zoomed \<lparr>hasContext = True, rectLeft = Num 0, rectTop = Num 0\<rparr> clickNear
     = (Num 3, Num 0)"
  "clickPoint zoomed \<lparr>hasContext = True, rectLeft = Num 0, rectTop = Num 0\<rparr> clickAtOrigin
     = (Num 0, Num 0)"
  by (simp_all add: state_defs clickNear_def clickAtOrigin_def clickPoint_def invert_def)

lemma zoomed_radius: "hitRadius zoomed = Num 5"
  by (simp add: state_defs hitRadius_def)

lemma zoomed_distance:
  "pointerDistance (Num 3, Num 0) (Num 3) (Num 4) = Num 4"
  "pointerDistance (Num 0, Num 0) (Num 3) (Num 4) = Num 5"
  by (simp_all add: pointerDistance_def)

theorem handleClick_strict_witness:
  "handleClick zoomed clickNear = [OnSelect ''n'', RequestRedraw]"
proof -
  let ?cv = "\<lparr>hasContext = True, rectLeft = Num 0, rectTop = Num 0\<rparr>"
  let ?n = "mkNode ''n'' (Some (Num 3)) (Some (Num 4))"
  have canvas: "canvasRef zoomed = Some ?cv" and cb: "onSelectRef zoomed"
    and mem: "?n \<in> set (simulationNodes zoomed)"
    and pos: "x ?n = Some (Num 3)" "y ?n = Some (Num 4)"
    and nonzero: "truthy (Some (Num 3))" "truthy (Some (Num 4))"
    by (simp_all add: state_defs)
  have less: "js_lt (pointerDistance (clickPoint zoomed ?cv clickNear) (Num 3) (Num 4))
                (hitRadius zoomed)"
    by (simp add: zoomed_point zoomed_radius zoomed_distance)
  have alone: "simulationNodes zoomed = [] @ ?n # []" "\<forall>m \<in> set []. \<not> isHit zoomed (clickPoint zoomed ?cv clickNear) m"
    by (simp_all add: state_defs)
  from handleClick_strict [OF canvas cb mem pos nonzero, of clickNear] less alone
  have "handleClick zoomed clickNear = [OnSelect (nodeId ?n), RequestRedraw]"
    by blast
  then show ?thesis by (simp add: mkNode_def)
qed

text \<open>
  At scale 2 and radius 10, a node exactly 5 away from the inverted click point is not
  hit: the comparison is strict.
\<close>

theorem handleClick_boundary_counterexample:
  "clickPoint zoomed \<lparr>hasContext = True, rectLeft = Num 0, rectTop = Num 0\<rparr> clickAtOrigin
     = (Num 0, Num 0) \<and>
   pointerDistance (Num 0, Num 0) (Num 3) (Num 4) = Num 5 \<and>
   hitRadius zoomed = Num 5 \<and>
   handleClick zoomed clickAtOrigin = [OnSelect [], RequestRedraw]"
proof -
  let ?cv = "\<lparr>hasContext = True, rectLeft = Num 0, rectTop = Num 0\<rparr>"
  let ?n = "mkNode ''n'' (Some (Num 3)) (Some (Num 4))"
  have canvas: "canvasRef zoomed = Some ?cv" and cb: "onSelectRef zoomed"
    and ns: "simulationNodes zoomed = [?n]"
    by (simp_all add: state_defs)
  have "\<not> isHit zoomed (Num 0, Num 0) ?n"
    by (simp add: isHit_def mkNode_def zoomed_distance zoomed_radius)
  then have "clickedNode zoomed ?cv clickAtOrigin = None"
    by (simp add: clickedNode_def zoomed_point ns)
  with handleClick_found [OF canvas cb, of clickAtOrigin]
  show ?thesis
    by (simp add: zoomed_point zoomed_radius zoomed_distance)
qed

subsection \<open>Position cache\<close>

lemma find_None_id: "find (\<lambda>p. nodeId p = i) ps = None \<longleftrightarrow> i \<notin> nodeId ` set ps"
  by (auto simp: find_None_iff)

lemma find_Some_id:
  "find (\<lambda>p. nodeId p = i) ps = Some p \<Longrightarrow> p \<in> set ps \<and> nodeId p = i"
  by (auto simp: find_Some_iff)

lemma find_distinct_id:
  "distinct (map nodeId ps) \<Longrightarrow> p \<in> set ps \<Longrightarrow> find (\<lambda>q. nodeId q = nodeId p) ps = Some p"
  by (induction ps) (auto simp: image_iff)

lemma mergeNode_keeps: "nodeId (mergeNode cache nd) = nodeId nd \<and> (mergeNode cache nd)\<lparr>x := x nd, y := y nd\<rparr> = nd"
  by (simp add: mergeNode_def Let_def)

lemma mergeNode_unknown:
  "nodeId nd \<notin> nodeId ` set cache \<Longrightarrow> x (mergeNode cache nd) = None \<and> y (mergeNode cache nd) = None"
  using find_None_id [of "nodeId nd" cache] by (simp add: mergeNode_def Let_def)

lemma mergeNode_known:
  assumes "nodeId nd \<in> nodeId ` set cache"
  shows "\<exists>p \<in> set cache. nodeId p = nodeId nd \<and> x (mergeNode cache nd) = x p \<and> y (mergeNode cache nd) = y p"
proof -
  from assms find_None_id [of "nodeId nd" cache]
  obtain p where p: "find (\<lambda>q. nodeId q = nodeId nd) cache = Some p" by auto
  with find_Some_id [OF p] show ?thesis
    by (auto simp: mergeNode_def Let_def)
qed

lemma mergeNode_distinct:
  assumes "distinct (map nodeId cache)" and "p \<in> set cache" and "nodeId p = nodeId nd"
  shows "x (mergeNode cache nd) = x p \<and> y (mergeNode cache nd) = y p"
  using find_distinct_id [OF assms(1,2)] assms(3) by (simp add: mergeNode_def Let_def)

text \<open>
  Claim C3. The effect replaces the simulation nodes by the incoming ones, one for one and
  with their ids and other fields; a node whose id occurs among the previous simulation
  nodes has the \<open>x\<close> and \<open>y\<close> of a previous node of that id (of the one there is, when ids
  are unique), and a node whose id does not occur has neither \<open>x\<close> nor \<open>y\<close>.
\<close>

theorem nodesEffect_positions:
  "length (simulationNodes (nodesEffect c props)) = length (nodes props) \<and>
   (\<forall>i < length (nodes props).
      nodeId (simulationNodes (nodesEffect c props) ! i) = nodeId (nodes props ! i) \<and>
      (simulationNodes (nodesEffect c props) ! i)\<lparr>x := x (nodes props ! i), y := y (nodes props ! i)\<rparr>
        = nodes props ! i \<and>
      (nodeId (nodes props ! i) \<in> nodeId ` set (simulationNodes c) \<longrightarrow>
         (\<exists>p \<in> set (simulationNodes c). nodeId p = nodeId (nodes props ! i) \<and>
            x (simulationNodes (nodesEffect c props) ! i) = x p \<and>
            y (simulationNodes (nodesEffect c props) ! i) = y p)) \<and>
      (distinct (map nodeId (simulationNodes c)) \<longrightarrow>
         (\<forall>p \<in> set (simulationNodes c). nodeId p = nodeId (nodes props ! i) \<longrightarrow>
            x (simulationNodes (nodesEffect c props) ! i) = x p \<and>
            y (simulationNodes (nodesEffect c props) ! i) = y p)) \<and>
      (nodeId (nodes props ! i) \<notin> nodeId ` set (simulationNodes c) \<longrightarrow>
         x (simulationNodes (nodesEffect c props) ! i) = None \<and>
         y (simulationNodes (nodesEffect c props) ! i) = None))"
proof (intro conjI allI impI)
  show "length (simulationNodes (nodesEffect c props)) = length (nodes props)"
    by (simp add: nodesEffect_def)
next
  fix i assume i: "i < length (nodes props)"
  let ?nd = "nodes props ! i"
  have out: "simulationNodes (nodesEffect c props) ! i = mergeNode (simulationNodes c) ?nd"
    using i by (simp add: nodesEffect_def)
  show "nodeId (simulationNodes (nodesEffect c props) ! i) = nodeId ?nd"
    and "(simulationNodes (nodesEffect c props) ! i)\<lparr>x := x ?nd, y := y ?nd\<rparr> = ?nd"
    unfolding out using mergeNode_keeps [of "simulationNodes c" ?nd] by simp_all
  show "\<exists>p \<in> set (simulationNodes c). nodeId p = nodeId ?nd \<and>
            x (simulationNodes (nodesEffect c props) ! i) = x p \<and>
            y (simulationNodes (nodesEffect c props) ! i) = y p"
    if "nodeId ?nd \<in> nodeId ` set (simulationNodes c)"
    unfolding out using that by (rule mergeNode_known)
  show "\<forall>p \<in> set (simulationNodes c). nodeId p = nodeId ?nd \<longrightarrow>
            x (simulationNodes (nodesEffect c props) ! i) = x p \<and>
            y (simulationNodes (nodesEffect c props) ! i) = y p"
    if "distinct (map nodeId (simulationNodes c))"
    unfolding out using that mergeNode_distinct by blast
  show "x (simulationNodes (nodesEffect c props) ! i) = None"
    and "y (simulationNodes (nodesEffect c props) ! i) = None"
    if "nodeId ?nd \<notin> nodeId ` set (simulationNodes c)"
    unfolding out using mergeNode_unknown [OF that] by simp_all
qed


theorem nodesEffect_positions_witness:
  "x (simulationNodes (nodesEffect cached propsBZ) ! 0) = Some (Num 3) \<and>
   y (simulationNodes (nodesEffect cached propsBZ) ! 0) = Some (Num 4) \<and>
   x (simulationNodes (nodesEffect cached propsBZ) ! 1) = None \<and>
   y (simulationNodes (nodesEffect cached propsBZ) ! 1) = None"
proof -
  let ?b = "mkNode ''b'' (Some (Num 3)) (Some (Num 4))"
  have len: "0 < length (nodes propsBZ)" "1 < length (nodes propsBZ)"
    by (simp_all add: propsBZ_def)
  have ids: "distinct (map nodeId (simulationNodes cached))"
    by (simp add: state_defs)
  have b: "?b \<in> set (simulationNodes cached)" "nodeId ?b = nodeId (nodes propsBZ ! 0)"
    by (simp_all add: state_defs)
  have z: "nodeId (nodes propsBZ ! 1) \<notin> nodeId ` set (simulationNodes cached)"
    by (simp add: state_defs)
  from nodesEffect_positions [of cached propsBZ] len ids b
  have "x (simulationNodes (nodesEffect cached propsBZ) ! 0) = x ?b \<and>
        y (simulationNodes (nodesEffect cached propsBZ) ! 0) = y ?b"
    by blast
  moreover from nodesEffect_positions [of cached propsBZ] len z
  have "x (simulationNodes (nodesEffect cached propsBZ) ! 1) = None \<and>
        y (simulationNodes (nodesEffect cached propsBZ) ! 1) = None"
    by blast
  ultimately show ?thesis by (simp add: mkNode_def)
qed

subsection \<open>Keyboard\<close>

lemma tab_only:
  assumes "key event = ''Tab''"
  shows "escapeBranch c event = []" and "arrowBranch c event = []"
  using assms by (simp_all add: escapeBranch_def arrowBranch_def keyToDirection_def)

text \<open>
  Claim C4, as the code has it. Tab without Shift, with no selection and a callback:
  a memoized node with a non-empty id is reported, whether or not it is still among the
  simulation nodes; without one, the first simulation node is reported when there is one.
\<close>

theorem tab_reports:
  assumes tab: "key event = ''Tab''" and shift: "\<not> shiftKey event"
    and nosel: "selectedId c = []" and cb: "onSelectRef c"
  shows "(\<forall>p. prevSelectedNode c = Some p \<and> nodeId p \<noteq> [] \<longrightarrow>
            onKeyDown c event = Inr [OnSelect (nodeId p), RequestRedraw, PreventDefault]) \<and>
         (\<forall>nd rest.
            (prevSelectedNode c = None \<or> (\<exists>p. prevSelectedNode c = Some p \<and> nodeId p = [])) \<and>
            simulationNodes c = nd # rest \<longrightarrow>
            onKeyDown c event = Inr [OnSelect (nodeId nd), RequestRedraw, PreventDefault])"
  using shift nosel cb
  by (auto simp: onKeyDown_def tab_only [OF tab] tabBranch_def tabTarget_def tab)

theorem tab_reports_witness:
  "onKeyDown onlyB tabEvent = Inr [OnSelect ''b'', RequestRedraw, PreventDefault] \<and>
   onKeyDown memoA tabEvent
     = Inr [OnSelect ''a'', RequestRedraw, PreventDefault]"
proof -
  have ev: "key tabEvent = ''Tab''" "\<not> shiftKey tabEvent" by (simp_all add: tabEvent_def)
  let ?c = memoA
  have b: "selectedId onlyB = []" "onSelectRef onlyB" "prevSelectedNode onlyB = None"
    "simulationNodes onlyB = mkNode ''b'' None None # []"
    by (simp_all add: state_defs nodesEffect_def mergeNode_def)
  have a: "selectedId ?c = []" "onSelectRef ?c"
    "prevSelectedNode ?c = Some (mkNode ''a'' None None)" "nodeId (mkNode ''a'' None None) \<noteq> []"
    by (simp_all add: state_defs nodesEffect_def mergeNode_def render_def)
  from tab_reports [OF ev b(1,2)] b(3,4)
  have "onKeyDown onlyB tabEvent = Inr [OnSelect (nodeId (mkNode ''b'' None None)), RequestRedraw, PreventDefault]"
    by blast
  moreover from tab_reports [OF ev a(1,2)] a(3,4)
  have "onKeyDown ?c tabEvent = Inr [OnSelect (nodeId (mkNode ''a'' None None)), RequestRedraw, PreventDefault]"
    by blast
  ultimately show ?thesis by (simp add: mkNode_def)
qed

text \<open>
  After \<open>a\<close> was selected and then removed, Tab still reports \<open>a\<close>, not the first node
  \<open>b\<close> of the list.
\<close>

theorem tab_stale_memo_counterexample:
  "map nodeId (simulationNodes afterRemoval) = [''b''] \<and>
   selectedId afterRemoval = [] \<and>
   map_option nodeId (prevSelectedNode afterRemoval) = Some ''a'' \<and>
   onKeyDown afterRemoval tabEvent = Inr [OnSelect ''a'', RequestRedraw, PreventDefault]"
  by (simp add: state_defs tabEvent_def nodesEffect_def mergeNode_def render_def onKeyDown_def
        tabBranch_def tabTarget_def escapeBranch_def arrowBranch_def keyToDirection_def)

text \<open>
  Claim C8 fails on the code: Tab with no selection, no memo, an empty node list and a
  callback reads \<^verbatim>\<open>id\<close> of an undefined element, and the handler throws.
\<close>

theorem tab_empty_graph_throws:
  "onKeyDown mounted tabEvent = Inl TypeError"
  by (simp add: mounted_def tabEvent_def onKeyDown_def tabBranch_def tabTarget_def)

subsection \<open>Centre of the layout\<close>

text \<open>
  Claim C9, as the code has it. The centring force pulls toward the midpoint of the
  browser window, whatever the width and height given to the component: half the inner
  width and half the inner height, as binary64 values.
\<close>

theorem center_is_window_midpoint:
  "simulation props \<lparr>innerWidth = Num w, innerHeight = Num h\<rparr>
     = \<lparr>chargeStrength = Num (- 10), centerX = double (w / 2), centerY = double (h / 2)\<rparr>"
  by (simp add: simulation_def)

text \<open>
  In a window of 1000 by 800 a component of 400 by 300 is centred on \<open>(500, 400)\<close>, not on
  \<open>(200, 150)\<close>.
\<close>

theorem center_not_viewport_counterexample:
  "centerX (simulation propsB bigWindow) = Num 500 \<and>
   centerY (simulation propsB bigWindow) = Num 400 \<and>
   js_div (width propsB) (Num 2) = Num 200 \<and>
   js_div (height propsB) (Num 2) = Num 150"
  by (simp add: simulation_def propsB_def bigWindow_def)

subsection \<open>Renderer\<close>


lemma drawLinkStep_resolved:
  "drawLinkStep t l = (if linkResolved l then [DrawLink (screenLink t l)] else [])"
  by (auto simp: drawLinkStep_def linkResolved_def hasPosition_def screenLink_def screenEnd_def
        screenNode_def applyT_def split: endpoint.splits option.splits)

lemma links_calls:
  "concat (map (drawLinkStep t) ls) = map (\<lambda>l. DrawLink (screenLink t l)) (filter linkResolved ls)"
  by (induction ls) (simp_all add: drawLinkStep_resolved)

lemma truthy_Some: "truthy v \<Longrightarrow> \<exists>a. v = Some a"
  by (cases v) simp_all

lemma drawNode_positioned:
  "drawNode t nd = (if positioned nd then [DrawNode (screenNode t nd)] else [])"
  by (auto simp: drawNode_def positioned_def screenNode_def applyT_def
        dest!: truthy_Some split: option.splits)

lemma nodes_calls:
  "concat (map (drawNode t) ns) = map (\<lambda>nd. DrawNode (screenNode t nd)) (filter positioned ns)"
  by (induction ns) (simp_all add: drawNode_positioned)

text \<open>The node loop: the others in order, and the last node with the selected id kept aside.\<close>

lemma nodeStep_pair:
  "nodeStep t sid (ops, sel) nd =
     (if nodeId nd = sid then (ops, Some nd) else (ops @ drawNode t nd, sel))"
  by (simp add: nodeStep_def)

lemma node_loop:
  "foldl (nodeStep t sid) (ops, sel) ns =
     (ops @ concat (map (drawNode t) (filter (\<lambda>nd. nodeId nd \<noteq> sid) ns)),
      (if filter (\<lambda>nd. nodeId nd = sid) ns = [] then sel
       else Some (last (filter (\<lambda>nd. nodeId nd = sid) ns))))"
proof (induction ns arbitrary: ops sel)
  case Nil
  then show ?case by simp
next
  case (Cons nd ns)
  have step: "foldl (nodeStep t sid) (ops, sel) (nd # ns)
                = foldl (nodeStep t sid) (nodeStep t sid (ops, sel) nd) ns"
    by simp
  show ?case
  proof (cases "nodeId nd = sid")
    case True
    then show ?thesis unfolding step nodeStep_pair by (simp add: Cons.IH)
  next
    case False
    then show ?thesis unfolding step nodeStep_pair by (simp add: Cons.IH)
  qed
qed

lemma distinct_filter_id:
  "distinct (map nodeId ns) \<Longrightarrow>
     filter (\<lambda>nd. nodeId nd = sid) ns = [] \<or> (\<exists>m. filter (\<lambda>nd. nodeId nd = sid) ns = [m])"
proof (induction ns)
  case Nil
  then show ?case by simp
next
  case (Cons nd ns)
  show ?case
  proof (cases "nodeId nd = sid")
    case True
    with Cons.prems have "\<forall>m \<in> set ns. nodeId m \<noteq> sid" by (auto simp: image_iff)
    then have "filter (\<lambda>nd. nodeId nd = sid) ns = []" by (simp add: filter_empty_conv)
    with True show ?thesis by simp
  next
    case False
    with Cons show ?thesis by simp
  qed
qed

lemma drawNodes_calls:
  assumes "distinct (map nodeId ns)"
  shows "drawNodes t sid ns =
           map (\<lambda>nd. DrawNode (screenNode t nd)) (filter positioned (filter (\<lambda>nd. nodeId nd \<noteq> sid) ns))
           @ map (\<lambda>nd. DrawNode (screenNode t nd)) (filter positioned (filter (\<lambda>nd. nodeId nd = sid) ns))"
proof -
  from distinct_filter_id [OF assms, of sid]
  show ?thesis
    by (auto simp: drawNodes_def node_loop nodes_calls drawNode_positioned simp del: filter_filter)
qed

text \<open>
  With a canvas that gives a context, and unique node ids, a redraw is: set the transform,
  clear the surface, then one \<^verbatim>\<open>drawLink\<close> call for each resolved link in list order,
  then one \<^verbatim>\<open>drawNode\<close> call for each node with a truthy \<open>x\<close> and \<open>y\<close> whose id is not
  the selected one, and last the call for the node with the selected id.
\<close>

lemma drawToCanvas_calls:
  assumes "canvasRef c = Some cv" and "hasContext cv"
    and "distinct (map nodeId (simulationNodes c))"
  shows "drawToCanvas c =
           [SetTransform (pixelRatio c) (Num 0) (Num 0) (pixelRatio c) (Num 0) (Num 0),
            ClearRect (Num 0) (Num 0) (widthRef c) (heightRef c)]
           @ map (\<lambda>l. DrawLink (screenLink (transformRef c) l))
               (filter linkResolved (simulationLinks c))
           @ map (\<lambda>nd. DrawNode (screenNode (transformRef c) nd))
               (filter positioned (filter (\<lambda>nd. nodeId nd \<noteq> selectedIdRef c) (simulationNodes c)))
           @ map (\<lambda>nd. DrawNode (screenNode (transformRef c) nd))
               (filter positioned (filter (\<lambda>nd. nodeId nd = selectedIdRef c) (simulationNodes c)))"
  using assms by (simp add: drawToCanvas_def links_calls drawNodes_calls)


lemmas draw_defs = drawn_def axisGraph_def nodeA_def nodeB_def nodeU_def nodeP_def mounted_def
  mkNode_def zoomIdentity_def

text \<open>
  Claim C6 fails on the code. The graph has the nodes \<open>p\<close>, pinned at \<open>(0, 5)\<close>, and \<open>b\<close> at
  \<open>(3, 4)\<close>; the redraw clears the surface and draws \<open>b\<close> only: \<^verbatim>\<open>drawNode\<close> returns on
  \<^verbatim>\<open>!node.x\<close> before it calls the callback for \<open>p\<close>, whose \<open>x\<close> is zero and not undefined.
\<close>

theorem drawToCanvas_skips_zero:
  "map nodeId (simulationNodes axisGraph) = [''p'', ''b''] \<and>
   x nodeP = Some (Num 0) \<and> y nodeP = Some (Num 5) \<and>
   drawToCanvas axisGraph =
     [SetTransform (Num 1) (Num 0) (Num 0) (Num 1) (Num 0) (Num 0),
      ClearRect (Num 0) (Num 0) (Num 400) (Num 300),
      DrawNode (mkNode ''b'' (Some (Num 3)) (Some (Num 4)))]"
proof -
  let ?cv = "\<lparr>hasContext = True, rectLeft = Num 0, rectTop = Num 0\<rparr>"
  have canvas: "canvasRef axisGraph = Some ?cv" and ctx: "hasContext ?cv"
    by (simp_all add: draw_defs)
  have ids: "distinct (map nodeId (simulationNodes axisGraph))"
    by (simp add: draw_defs)
  have "drawToCanvas axisGraph =
     [SetTransform (Num 1) (Num 0) (Num 0) (Num 1) (Num 0) (Num 0),
      ClearRect (Num 0) (Num 0) (Num 400) (Num 300),
      DrawNode (mkNode ''b'' (Some (Num 3)) (Some (Num 4)))]"
    unfolding drawToCanvas_calls [OF canvas ctx ids]
    by (simp add: draw_defs positioned_def screenNode_def applyT_def)
  then show ?thesis
    by (simp add: draw_defs)
qed

lemma drawNodes_no_link: "filter isDrawLink (drawNodes t sid ns) = []"
  by (auto simp: drawNodes_def node_loop filter_concat drawNode_positioned filter_empty_conv)


text \<open>
  Claim C7. The \<^verbatim>\<open>drawLink\<close> calls of a redraw are those for the resolved links of the
  list, in order: a link with an end that is not a node object, or whose end has no \<open>x\<close> or
  no \<open>y\<close>, gives no call. The redraw has no failing branch.
\<close>

theorem drawToCanvas_links:
  assumes "canvasRef c = Some cv" and "hasContext cv"
  shows "filter isDrawLink (drawToCanvas c) =
           map (\<lambda>l. DrawLink (screenLink (transformRef c) l)) (filter linkResolved (simulationLinks c))"
  using assms
  by (simp add: drawToCanvas_def links_calls drawNodes_no_link filter_map comp_def)



theorem drawToCanvas_links_witness:
  "filter isDrawLink (drawToCanvas drawn) =
     [DrawLink \<lparr>source = NodeObject (mkNode ''a'' (Some (Num 12)) (Some (Num 24))),
                target = NodeObject (mkNode ''b'' (Some (Num 16)) (Some (Num 28))),
                linkIndex = None\<rparr>]"
proof -
  let ?cv = "\<lparr>hasContext = True, rectLeft = Num 0, rectTop = Num 0\<rparr>"
  have canvas: "canvasRef drawn = Some ?cv" and ctx: "hasContext ?cv"
    by (simp_all add: draw_defs)
  show ?thesis
    unfolding drawToCanvas_links [OF canvas ctx]
    by (simp add: draw_defs linkResolved_def hasPosition_def screenLink_def
          screenEnd_def screenNode_def applyT_def)
qed


subsection \<open>Nodes with a zero coordinate\<close>

lemma zero_not_positioned: "x nd = Some (Num 0) \<or> y nd = Some (Num 0) \<Longrightarrow> \<not> positioned nd"
  by (auto simp: positioned_def)

lemma redraw_without:
  assumes "\<not> positioned nd" and "distinct (map nodeId (simulationNodes c))"
  shows "drawToCanvas (c\<lparr>simulationNodes := removeAll nd (simulationNodes c)\<rparr>) = drawToCanvas c"
proof -
  have ids: "distinct (map nodeId (removeAll nd (simulationNodes c)))"
    using assms(2) by (simp add: removeAll_filter_not_eq distinct_map_filter)
  have same: "filter (\<lambda>m. P m \<and> positioned m) (removeAll nd ns) = filter (\<lambda>m. P m \<and> positioned m) ns"
    for P and ns :: "node list"
    using assms(1) by (induction ns) auto
  show ?thesis
    by (simp add: drawToCanvas_def drawNodes_calls [OF ids] drawNodes_calls [OF assms(2)] same
          split: option.splits)
qed

lemma isHit_zero: "x nd = Some (Num 0) \<or> y nd = Some (Num 0) \<Longrightarrow> \<not> isHit c p nd"
  by (auto simp: isHit_def)

lemma sole_candidate:
  assumes "fst sel \<noteq> r"
    and "qualifies (fst sel) sp d (r, nd)"
  shows "foldl (loopBody (fst sel) sp d) None [sel, (r, nd)] = Some ((r, nd), scoreOf sp d (r, nd))"
proof -
  have "loopBody (fst sel) sp d None sel = None"
    by (simp add: loopBody_def)
  with assms(2) show ?thesis by (simp add: loopBody_take)
qed

text \<open>
  Claim C10. A node at \<open>(a, b)\<close> with \<open>a = 0\<close> or \<open>b = 0\<close> is skipped by \<^verbatim>\<open>drawNode\<close>, so
  that (ids being unique) a redraw is the same with the node taken out of the list; the
  hit test never finds it; but the navigator takes it as a candidate: from a positioned
  node \<open>sel\<close> with the node on the side of the direction, it is returned when it is the
  only other node, and some node is returned from every list that has it.
\<close>

theorem zero_coordinate_node:
  assumes nx: "x nd = Some (Num a)" and ny: "y nd = Some (Num b)" and zero: "a = 0 \<or> b = 0"
    and selx: "x (snd sel) = Some (Num sx)" and sely: "y (snd sel) = Some (Num sy)"
    and other: "r \<noteq> fst sel" and side: "onSide d sx sy a b"
  shows "drawNode t nd = [] \<and>
         (distinct (map nodeId (simulationNodes c)) \<longrightarrow>
            drawToCanvas (c\<lparr>simulationNodes := removeAll nd (simulationNodes c)\<rparr>) = drawToCanvas c) \<and>
         clickedNode c cv event \<noteq> Some nd \<and>
         getNextNode [sel, (r, nd)] (Some sel) d = Some (r, nd) \<and>
         ((r, nd) \<in> set ns \<longrightarrow> getNextNode ns (Some sel) d \<noteq> None)"
proof -
  let ?sp = "\<lparr>px = Num sx, py = Num sy\<rparr>"
  from nx ny zero have z: "x nd = Some (Num 0) \<or> y nd = Some (Num 0)" by auto
  then have np: "\<not> positioned nd" by (rule zero_not_positioned)
  have draw: "drawNode t nd = []" using np by (simp add: drawNode_positioned)
  have hit: "clickedNode c cv event \<noteq> Some nd"
    using isHit_zero [OF z] find_holds unfolding clickedNode_def by fastforce
  have qual: "qualifies (fst sel) ?sp d (r, nd)"
    using nx ny other side by (simp add: qualifies_def wrongSide_Num)
  have two: "getNextNode [sel, (r, nd)] (Some sel) d = Some (r, nd)"
    using selx sely sole_candidate [OF other [symmetric] qual]
    by (simp add: getNextNode_def)
  have some: "getNextNode ns (Some sel) d \<noteq> None" if "(r, nd) \<in> set ns"
    using selx sely that qual loop_None_iff [of "fst sel" ?sp d None ns]
    by (auto simp: getNextNode_def)
  from draw redraw_without [OF np] hit two some show ?thesis by blast
qed

theorem zero_coordinate_node_witness:
  "drawNode zoomIdentity (snd onAxis) = [] \<and>
   clickedNode mounted \<lparr>hasContext = True, rectLeft = Num 0, rectTop = Num 0\<rparr>
     \<lparr>clientX = Num 0, clientY = Num 3\<rparr> \<noteq> Some (snd onAxis) \<and>
   getNextNode [navC, onAxis] (Some navC) N = Some onAxis"
proof -
  have pos: "x (snd onAxis) = Some (Num 0)" "y (snd onAxis) = Some (Num 3)"
    and zero: "(0::real) = 0 \<or> (3::real) = 0"
    and sel: "x (snd navC) = Some (Num 5)" "y (snd navC) = Some (Num 5)"
    and other: "fst onAxis \<noteq> fst navC" and side: "onSide N 5 5 0 3"
    by (simp_all add: onAxis_def navC_def mkNode_def onSide_def)
  have pair: "(fst onAxis, snd onAxis) = onAxis" by simp
  from zero_coordinate_node [OF pos zero sel other side, of zoomIdentity mounted]
  show ?thesis unfolding pair by blast
qed


end
